theory Spec2Isabelle
  imports Complex_Main "HOL-Library.Multiset"
begin

section \<open>The word lists of the experiment\<close>

text \<open>
  The component \<open>ActiveRecallApp\<close> (src/components/ActiveRecallApp.tsx) is a timed
  recall quiz. Its entries are plain objects; a JavaScript string is modelled as a
  \<open>string\<close> holding one \<open>char\<close> per UTF-16 code unit (every literal of the source
  stays below code unit 256, so the non-ASCII letters are written \<open>CHR 0xE5\<close>,
  \<open>CHR 0xE4\<close> and \<open>CHR 0xF6\<close>). String equality is equality of these lists, as
  \<open>===\<close>, \<open>Set.has\<close> and \<open>Array.includes\<close> compare strings.

  src/unnamed/part_001 is an earlier copy of the same component: the word lists,
  \<open>toggleWord\<close> and \<open>submit\<close> are the same statement for statement, while
  \<open>STUDY_TIME\<close> is 30 there and the study and distraction pages carry a "Skip" button.
  The constants and the pages modelled here are those of ActiveRecallApp.tsx.
\<close>

record entry =
  word :: string
  lang :: string

record WordEntry = entry +
  pos :: nat

definition WORDS :: "WordEntry list" where
  "WORDS =
    [\<lparr>word = ''Apple'', lang = ''EN'', pos = 1\<rparr>,
     \<lparr>word = ''Hund'', lang = ''SV'', pos = 2\<rparr>,
     \<lparr>word = ''Memory'', lang = ''EN'', pos = 3\<rparr>,
     \<lparr>word = ''Bl'' @ [CHR 0xE5], lang = ''SV'', pos = 4\<rparr>,
     \<lparr>word = ''River'', lang = ''EN'', pos = 5\<rparr>,
     \<lparr>word = ''Stj'' @ [CHR 0xE4] @ ''rna'', lang = ''SV'', pos = 6\<rparr>,
     \<lparr>word = ''Garden'', lang = ''EN'', pos = 7\<rparr>,
     \<lparr>word = ''Flicka'', lang = ''SV'', pos = 8\<rparr>,
     \<lparr>word = ''Thunder'', lang = ''EN'', pos = 9\<rparr>,
     \<lparr>word = ''Skog'', lang = ''SV'', pos = 10\<rparr>,
     \<lparr>word = ''Candle'', lang = ''EN'', pos = 11\<rparr>,
     \<lparr>word = ''Sn'' @ [CHR 0xF6], lang = ''SV'', pos = 12\<rparr>,
     \<lparr>word = ''Journey'', lang = ''EN'', pos = 13\<rparr>,
     \<lparr>word = ''F'' @ [CHR 0xE5] @ ''gel'', lang = ''SV'', pos = 14\<rparr>,
     \<lparr>word = ''Horizon'', lang = ''EN'', pos = 15\<rparr>]"


definition STUDY_TIME :: int where
  "STUDY_TIME = 40"

definition DISTRACT_TIME :: int where
  "DISTRACT_TIME = 300"

record EbbinghausPoint =
  label :: string
  retention :: nat

definition EBBINGHAUS :: "EbbinghausPoint list" where
  "EBBINGHAUS =
    [\<lparr>label = ''0 min'', retention = 100\<rparr>,
     \<lparr>label = ''5 min'', retention = 58\<rparr>,
     \<lparr>label = ''20 min'', retention = 44\<rparr>,
     \<lparr>label = ''1 hr'', retention = 36\<rparr>,
     \<lparr>label = ''1 day'', retention = 28\<rparr>,
     \<lparr>label = ''1 wk'', retention = 23\<rparr>]"

section \<open>JavaScript numbers as far as the scorer needs them\<close>

text \<open>
  The scorer divides one array length by another, multiplies by 100 and calls
  \<open>Math.round\<close>. A JavaScript division by zero raises nothing: it yields
  \<open>Infinity\<close> (positive dividend) or \<open>NaN\<close> (\<open>0 / 0\<close>), and both pass through
  \<open>* 100\<close> and \<open>Math.round\<close> unchanged. These outcomes are values of the model, so
  that "no division by zero" is a statement to prove and not an artefact of HOL's
  \<open>x / 0 = 0\<close>. Finite values are exact reals; \<open>Math.round\<close> rounds to the nearest
  integer with ties towards plus infinity, that is \<open>\<lfloor>x + 1/2\<rfloor>\<close>.
\<close>

datatype number = Num real | Infinity | NaN

definition js_div :: "nat \<Rightarrow> nat \<Rightarrow> number" where
  "js_div a b =
     (if b = 0 then (if a = 0 then NaN else Infinity) else Num (real a / real b))"

fun js_times :: "number \<Rightarrow> real \<Rightarrow> number" where
  "js_times (Num x) k = Num (x * k)"
| "js_times Infinity k = Infinity"
| "js_times NaN k = NaN"

fun Math_round :: "number \<Rightarrow> number" where
  "Math_round (Num x) = Num (of_int \<lfloor>x + 1 / 2\<rfloor>)"
| "Math_round Infinity = Infinity"
| "Math_round NaN = NaN"

section \<open>Component state\<close>

datatype Phase = Intro | Study | Distract | Recall | Results


record MatchedWord = WordEntry +
  recalled :: bool

record ForgettingPoint = EbbinghausPoint +
  audience :: "number option"

record Scores =
  matched :: "MatchedWord list"
  enRate :: number
  svRate :: number
  total' :: nat
  forgetting :: "ForgettingPoint list"
  audienceRet :: number
  falsePosCount :: nat

text \<open>
  The five \<open>useState\<close> cells. A JavaScript \<open>Set\<close> of strings keeps its elements in
  insertion order without repetition: it is the list of its elements, \<open>size\<close> is
  \<open>length\<close>, \<open>has\<close> is membership, \<open>delete\<close> removes the element and \<open>add\<close> appends
  an element that is not yet there.
\<close>

record state =
  phase :: Phase
  timer :: int
  selected :: "string list"
  submitted :: bool
  scores :: "Scores option"

definition init :: state where
  "init = \<lparr>phase = Intro, timer = 0, selected = [], submitted = False, scores = None\<rparr>"

section \<open>The shuffled recall grid\<close>

text \<open>
  \<open>shuffle arr = [...arr].sort(() => Math.random() - 0.5)\<close>. The spread copies the
  array; \<open>sort\<close> is the engine's \<open>Array.prototype.sort\<close>. The source fixes neither
  its algorithm nor the comparator calls it makes, and engines differ in both, so the
  sort is a parameter of \<open>shuffle\<close> and of \<open>grid\<close>.

  The comparator has an effect: it draws a random number. It therefore passes a state
  along, the index of the next result of \<open>Math.random()\<close> in the stream \<open>rnd\<close> of
  these results. It ignores the two elements it is given and answers with the random
  number minus one half. A sort receives the comparator, the array and the state, and
  returns the sorted array with the state after its last comparator call.
\<close>

type_synonym 'a comparefn = "'a \<Rightarrow> 'a \<Rightarrow> nat \<Rightarrow> real \<times> nat"

type_synonym 'a array_sort = "'a comparefn \<Rightarrow> 'a list \<Rightarrow> nat \<Rightarrow> 'a list \<times> nat"

definition random_comparefn :: "(nat \<Rightarrow> real) \<Rightarrow> 'a comparefn" where
  "random_comparefn rnd a b i = (rnd i - 1 / 2, Suc i)"

definition shuffle :: "'a array_sort \<Rightarrow> (nat \<Rightarrow> real) \<Rightarrow> 'a list \<Rightarrow> 'a list" where
  "shuffle Array_sort rnd arr = fst (Array_sort (random_comparefn rnd) arr 0)"




text \<open>
  One sort that can take the parameter's place, as an example of an engine: stable
  straight insertion. The sorted part is kept in reverse; the next element moves
  left past every element for which the comparator, called with that element first,
  answers with a positive number.
\<close>

fun insert_sorted :: "'a comparefn \<Rightarrow> 'a \<Rightarrow> 'a list \<Rightarrow> nat \<Rightarrow> 'a list \<times> nat" where
  "insert_sorted cmp x [] i = ([x], i)"
| "insert_sorted cmp x (y # rs) i =
     (case cmp y x i of (c, j) \<Rightarrow>
        if 0 < c then (case insert_sorted cmp x rs j of (zs, k) \<Rightarrow> (y # zs, k))
        else (x # y # rs, j))"

fun insertion_loop :: "'a comparefn \<Rightarrow> 'a list \<Rightarrow> 'a list \<Rightarrow> nat \<Rightarrow> 'a list \<times> nat" where
  "insertion_loop cmp [] acc i = (rev acc, i)"
| "insertion_loop cmp (x # xs) acc i =
     (case insert_sorted cmp x acc i of (acc', j) \<Rightarrow> insertion_loop cmp xs acc' j)"

definition insertion_sort :: "'a array_sort" where
  "insertion_sort cmp xs i = insertion_loop cmp xs [] i"


section \<open>Handlers\<close>

text \<open>
  \<open>setPhase\<close> together with the effect that depends on \<open>[phase]\<close>: when the phase
  really changes, the effect reloads the timer for \<open>study\<close> and \<open>distract\<close>. The
  render between the two updates is not observable by any handler: the timeout the
  countdown effect schedules there is cleared when the reloaded timer is rendered.
\<close>

definition setPhase :: "Phase \<Rightarrow> state \<Rightarrow> state" where
  "setPhase p s =
     (if p = phase s then s
      else if p = Study then s\<lparr>phase := p, timer := STUDY_TIME\<rparr>
      else if p = Distract then s\<lparr>phase := p, timer := DISTRACT_TIME\<rparr>
      else s\<lparr>phase := p\<rparr>)"

text \<open>
  One second passes. The countdown effect has a timeout pending only in \<open>study\<close> and
  \<open>distract\<close> with a positive timer; its callback advances the phase at 1 and
  decrements otherwise.
\<close>

definition tick :: "state \<Rightarrow> state" where
  "tick s =
     (if (phase s \<noteq> Study \<and> phase s \<noteq> Distract) \<or> timer s \<le> 0 then s
      else if timer s = 1 then setPhase (if phase s = Study then Distract else Recall) s
      else s\<lparr>timer := timer s - 1\<rparr>)"

definition goHome :: "state \<Rightarrow> state" where
  "goHome s = (setPhase Intro s)\<lparr>selected := [], submitted := False, scores := None\<rparr>"

definition toggleWord :: "string \<Rightarrow> state \<Rightarrow> state" where
  "toggleWord w s =
     (if submitted s then s
      else s\<lparr>selected :=
        (let prev = selected s in
         if w \<in> set prev then removeAll w prev
         else if length prev \<ge> length WORDS then prev
         else prev @ [w])\<rparr>)"

text \<open>The object \<open>submit\<close> hands to \<open>setScores\<close>, as a function of the selection.\<close>

definition submit_scores :: "string list \<Rightarrow> Scores" where
  "submit_scores sel =
     (let targets = map word WORDS;
          matched = map (\<lambda>w. \<lparr>word = word w, lang = lang w, pos = pos w,
                                recalled = (word w \<in> set sel)\<rparr>) WORDS;
          falsePosCount = length (filter (\<lambda>w. w \<notin> set targets) sel);
          en = filter (\<lambda>w. lang w = ''EN'') matched;
          sv = filter (\<lambda>w. lang w = ''SV'') matched;
          enRate = Math_round (js_times (js_div (length (filter recalled en)) (length en)) 100);
          svRate = Math_round (js_times (js_div (length (filter recalled sv)) (length sv)) 100);
          total = length (filter recalled matched);
          audienceRet = Math_round (js_times (js_div total (length WORDS)) 100);
          forgetting = map (\<lambda>(i, pt). \<lparr>label = label pt, retention = retention pt,
                              audience = (if i = (1::nat) then Some audienceRet else None)\<rparr>)
                         (enumerate 0 EBBINGHAUS)
      in \<lparr>matched = matched, enRate = enRate, svRate = svRate, total' = total,
          forgetting = forgetting, audienceRet = audienceRet,
          falsePosCount = falsePosCount\<rparr>)"

definition submit :: "state \<Rightarrow> state" where
  "submit s =
     setPhase Results (s\<lparr>scores := Some (submit_scores (selected s)), submitted := True\<rparr>)"

section \<open>User interface events\<close>

text \<open>
  \<open>Btn\<close> renders a \<open>button\<close> with \<open>disabled\<close>; a disabled button dispatches no click.
\<close>

definition Btn :: "bool \<Rightarrow> (state \<Rightarrow> state) \<Rightarrow> state \<Rightarrow> state" where
  "Btn disabled onClick s = (if disabled then s else onClick s)"

text \<open>
  Each phase renders its own page, and only the controls of that page can fire:
  "Begin Experiment" on the intro page, the word tiles and the submit button (disabled
  while nothing is selected) on the recall page, "Home" and "Run Again" on the results
  page, which is rendered only when scores exist. The tiles of the results page carry
  the empty handler.
\<close>

datatype event = Begin | Tick | ClickTile string | PressSubmit | PressHome

fun fire :: "event \<Rightarrow> state \<Rightarrow> state" where
  "fire Begin s = (if phase s = Intro then Btn False (setPhase Study) s else s)"
| "fire Tick s = tick s"
| "fire (ClickTile w) s = (if phase s = Recall then toggleWord w s else s)"
| "fire PressSubmit s = (if phase s = Recall then Btn (selected s = []) submit s else s)"
| "fire PressHome s =
     (if phase s = Results \<and> scores s \<noteq> None then Btn False goHome s else s)"

definition run :: "event list \<Rightarrow> state \<Rightarrow> state" where
  "run es s = foldl (\<lambda>s e. fire e s) s es"

section \<open>Example selections\<close>

text \<open>Five target words together with the two decoys Forest and Natt.\<close>

definition sel7 :: "string list" where
  "sel7 = [''Apple'', ''Forest'', ''Hund'', ''Natt'', ''River'', ''Skog'', ''Candle'']"

text \<open>The texts of the first eight target words.\<close>

definition first8 :: "string list" where
  "first8 = take 8 (map word WORDS)"

section \<open>Example states and event sequences\<close>

text \<open>The recall page with all fifteen target words selected.\<close>

definition full15 :: state where
  "full15 = \<lparr>phase = Recall, timer = 1, selected = map word WORDS, submitted = False,
              scores = None\<rparr>"

text \<open>
  "Begin Experiment" followed by the 40 seconds of the study countdown, or by the 340
  seconds of both countdowns; then every target word clicked; and one word clicked,
  then submitted.
\<close>

definition to_distract :: "event list" where
  "to_distract = Begin # replicate 40 Tick"

definition to_recall :: "event list" where
  "to_recall = Begin # replicate 340 Tick"

definition select_all :: "event list" where
  "select_all = to_recall @ map (\<lambda>w. ClickTile (word w)) WORDS"

definition to_results :: "event list" where
  "to_results = to_recall @ [ClickTile ''Apple'', PressSubmit]"

section \<open>Invariants\<close>

text \<open>The selection is a set of at most as many words as there are targets.\<close>

definition sel_ok :: "string list \<Rightarrow> bool" where
  "sel_ok xs = (distinct xs \<and> length xs \<le> length WORDS)"

text \<open>Scores exist, and \<open>submitted\<close> is set, exactly on the results page.\<close>

definition results_ok :: "state \<Rightarrow> bool" where
  "results_ok s = ((phase s = Results) = submitted s \<and> (scores s \<noteq> None) = submitted s)"

section \<open>Facts about the word lists and the scorer\<close>

lemma distinct_WORDS: "distinct WORDS"
  by (simp add: WORDS_def)

lemma distinct_targets: "distinct (map word WORDS)"
  by (simp add: WORDS_def)

lemma length_WORDS: "length WORDS = 15"
  by (simp add: WORDS_def)

lemma card_filter_distinct:
  "distinct xs \<Longrightarrow> card {x \<in> set xs. P x} = length (filter P xs)"
  using distinct_card [of "filter P xs"] by simp

lemma total_submit_scores:
  "total' (submit_scores sel) = length (filter (\<lambda>w. word w \<in> set sel) WORDS)"
  by (simp add: submit_scores_def Let_def filter_map comp_def)

lemma falsePos_submit_scores:
  "falsePosCount (submit_scores sel) = length (filter (\<lambda>w. w \<notin> set (map word WORDS)) sel)"
  by (simp add: submit_scores_def Let_def)

lemma audienceRet_submit_scores:
  "audienceRet (submit_scores sel) =
     Math_round (js_times (js_div (total' (submit_scores sel)) (length WORDS)) 100)"
  by (simp add: submit_scores_def Let_def)

lemma round_rate:
  assumes "0 < b"
  shows "Math_round (js_times (js_div a b) 100) = Num (of_int \<lfloor>real a / real b * 100 + 1 / 2\<rfloor>)"
  using assms by (simp add: js_div_def)

lemma total_subset:
  assumes "distinct S" and "set S \<subseteq> set (map word WORDS)"
  shows "total' (submit_scores S) = length S"
proof -
  have "length (filter (\<lambda>w. word w \<in> set S) WORDS)
        = length (filter (\<lambda>t. t \<in> set S) (map word WORDS))"
    by (simp add: filter_map comp_def)
  also have "\<dots> = card {t \<in> set (map word WORDS). t \<in> set S}"
    by (rule card_filter_distinct [OF distinct_targets, symmetric])
  also have "{t \<in> set (map word WORDS). t \<in> set S} = set S"
    using assms(2) by auto
  also have "card (set S) = length S"
    using assms(1) by (rule distinct_card)
  finally show ?thesis by (simp add: total_submit_scores)
qed

lemma falsePos_subset:
  assumes "set S \<subseteq> set (map word WORDS)"
  shows "falsePosCount (submit_scores S) = 0"
proof -
  have "filter (\<lambda>w. w \<notin> set (map word WORDS)) S = []"
    using assms by (auto simp: filter_empty_conv)
  then show ?thesis by (simp add: falsePos_submit_scores)
qed

section \<open>Exact arithmetic and the doubles of the source\<close>

text \<open>
  The source computes \<open>k / n * 100\<close> in binary64 where the model computes in the
  reals. For the English rate, \<open>k / 8\<close> and its product with 100 are multiples of
  \<open>1/8\<close> no larger than 100, which binary64 represents exactly, so the ties
  \<open>12.5\<close>, \<open>37.5\<close>, \<open>62.5\<close>, \<open>87.5\<close> are rounded as modelled. For the total and the
  Swedish rate the exact value is never a tie and keeps a distance of at least \<open>1/6\<close>
  resp. \<open>1/14\<close> from every tie, far more than the two roundings of the double
  computation can move it; any value that close to the exact one rounds to the same
  integer.
\<close>

lemma round_stable:
  fixes x y d :: real
  assumes far: "\<forall>n::int. d \<le> \<bar>x - (of_int n + 1 / 2)\<bar>" and near: "\<bar>y - x\<bar> < d"
  shows "\<lfloor>y + 1 / 2\<rfloor> = \<lfloor>x + 1 / 2\<rfloor>"
proof (rule floor_unique)
  let ?m = "\<lfloor>x + 1 / 2\<rfloor>"
  have lo: "of_int ?m \<le> x + 1 / 2" by (rule of_int_floor_le)
  have hi: "x + 1 / 2 < of_int ?m + 1" by linarith
  have a: "d \<le> \<bar>x - (of_int (?m - 1) + 1 / 2)\<bar>" using far by blast
  have a': "d \<le> \<bar>x - (of_int ?m - 1 / 2)\<bar>" using a by simp
  have b: "d \<le> \<bar>x - (of_int ?m + 1 / 2)\<bar>" using far by blast
  show "of_int ?m \<le> y + 1 / 2" using lo a' near by linarith
  show "y + 1 / 2 < of_int ?m + 1" using hi b near by linarith
qed

lemma odd_int_abs: "odd (k::int) \<Longrightarrow> (1::real) \<le> \<bar>of_int k\<bar>"
proof -
  assume "odd k"
  then have "k \<noteq> 0" by auto
  then have "1 \<le> \<bar>k\<bar>" by linarith
  then have "real_of_int 1 \<le> real_of_int \<bar>k\<bar>" by (simp only: of_int_le_iff)
  then show ?thesis by simp
qed


lemma retention_far_from_tie:
  "1 / 6 \<le> \<bar>100 * real t / 15 - (of_int n + 1 / 2)\<bar>"
proof -
  have "odd (40 * int t - 6 * n - 3)" by simp
  then have "(1::real) \<le> \<bar>of_int (40 * int t - 6 * n - 3)\<bar>" by (rule odd_int_abs)
  moreover have "100 * real t / 15 - (of_int n + 1 / 2)
      = real_of_int (40 * int t - 6 * n - 3) / 6"
    by (simp add: field_simps)
  ultimately show ?thesis by (simp only: abs_divide)
qed


lemma sv_rate_far_from_tie:
  "1 / 14 \<le> \<bar>100 * real k / 7 - (of_int n + 1 / 2)\<bar>"
proof -
  have "odd (200 * int k - 14 * n - 7)" by simp
  then have "(1::real) \<le> \<bar>of_int (200 * int k - 14 * n - 7)\<bar>" by (rule odd_int_abs)
  moreover have "100 * real k / 7 - (of_int n + 1 / 2)
      = real_of_int (200 * int k - 14 * n - 7) / 14"
    by (simp add: field_simps)
  ultimately show ?thesis by (simp only: abs_divide)
qed

lemma retention_round_stable:
  "\<bar>y - 100 * real t / 15\<bar> < 1 / 6 \<Longrightarrow> \<lfloor>y + 1 / 2\<rfloor> = \<lfloor>100 * real t / 15 + 1 / 2\<rfloor>"
  using retention_far_from_tie by (intro round_stable [where d = "1 / 6"]) auto

lemma sv_rate_round_stable:
  "\<bar>y - 100 * real k / 7\<bar> < 1 / 14 \<Longrightarrow> \<lfloor>y + 1 / 2\<rfloor> = \<lfloor>100 * real k / 7 + 1 / 2\<rfloor>"
  using sv_rate_far_from_tie by (intro round_stable [where d = "1 / 14"]) auto

section \<open>The scorer\<close>

text \<open>
  Claim C1. For every selection, the \<open>total\<close> the scorer reports is the number of
  target words whose text is in the selection, and this is the score object that
  \<open>submit\<close> stores.
\<close>

theorem total_counts_recalled_targets:
  "total' (submit_scores S) = card {w \<in> set WORDS. word w \<in> set S}
   \<and> scores (submit s) = Some (submit_scores (selected s))"
  by (simp add: total_submit_scores card_filter_distinct [OF distinct_WORDS]
      submit_def setPhase_def)

text \<open>
  Claim C2. For every selection set (a list without repetition, as a \<open>Set\<close> is),
  \<open>falsePosCount\<close> is the cardinality of the selection minus the target texts; the
  language of a word plays no part.
\<close>

theorem falsePosCount_is_card_diff:
  assumes "distinct S"
  shows "falsePosCount (submit_scores S) = card (set S - set (map word WORDS))"
proof -
  have "set S - set (map word WORDS) = {x \<in> set S. x \<notin> set (map word WORDS)}" by auto
  then show ?thesis
    using card_filter_distinct [OF assms, of "\<lambda>w. w \<notin> set (map word WORDS)"]
    by (simp add: falsePos_submit_scores)
qed

theorem falsePosCount_is_card_diff_witness:
  "distinct sel7 \<and> falsePosCount (submit_scores sel7) = 2
   \<and> total' (submit_scores sel7) = 5
   \<and> card (set sel7 - set (map word WORDS)) = 2"
proof -
  have d: "distinct sel7" by (simp add: sel7_def)
  have f: "falsePosCount (submit_scores sel7) = 2"
    by (simp add: falsePos_submit_scores sel7_def WORDS_def)
  have t: "total' (submit_scores sel7) = 5"
    by (simp add: total_submit_scores sel7_def WORDS_def)
  show ?thesis using falsePosCount_is_card_diff [OF d] d f t by simp
qed

text \<open>
  Claim C6. \<open>audienceRet\<close> is the integer nearest to \<open>100 * total / 15\<close>, a tie going
  up: it is the integer \<open>n\<close> with \<open>n - 1/2 \<le> 100 * total / 15 < n + 1/2\<close>. A
  selection of exactly eight target texts gives \<open>total = 8\<close>, \<open>audienceRet = 53\<close> and
  \<open>falsePosCount = 0\<close>.
\<close>

theorem audienceRet_round_half_up:
  "(\<exists>n. audienceRet (submit_scores S) = Num (of_int n)
        \<and> real_of_int n - 1 / 2 \<le> 100 * real (total' (submit_scores S)) / real (length WORDS)
        \<and> 100 * real (total' (submit_scores S)) / real (length WORDS) < real_of_int n + 1 / 2)
   \<and> (distinct S \<and> set S \<subseteq> set (map word WORDS) \<and> length S = 8 \<longrightarrow>
        total' (submit_scores S) = 8 \<and> audienceRet (submit_scores S) = Num 53
        \<and> falsePosCount (submit_scores S) = 0)"
proof (intro conjI impI)
  let ?x = "100 * real (total' (submit_scores S)) / real (length WORDS)"
  have pos: "0 < length WORDS" by (simp add: length_WORDS)
  have x: "real (total' (submit_scores S)) / real (length WORDS) * 100 = ?x" by simp
  have eq: "audienceRet (submit_scores S) = Num (of_int \<lfloor>?x + 1 / 2\<rfloor>)"
    by (simp only: audienceRet_submit_scores round_rate [OF pos] x)
  have lo: "real_of_int \<lfloor>?x + 1 / 2\<rfloor> \<le> ?x + 1 / 2" by (rule of_int_floor_le)
  have hi: "?x + 1 / 2 < real_of_int \<lfloor>?x + 1 / 2\<rfloor> + 1" by linarith
  show "\<exists>n. audienceRet (submit_scores S) = Num (of_int n)
        \<and> real_of_int n - 1 / 2 \<le> ?x \<and> ?x < real_of_int n + 1 / 2"
    using eq lo hi by (intro exI [of _ "\<lfloor>?x + 1 / 2\<rfloor>"]) linarith
next
  assume h: "distinct S \<and> set S \<subseteq> set (map word WORDS) \<and> length S = 8"
  then have t: "total' (submit_scores S) = 8" by (simp add: total_subset)
  show "total' (submit_scores S) = 8" by (rule t)
  show "audienceRet (submit_scores S) = Num 53"
    by (simp add: audienceRet_submit_scores t length_WORDS js_div_def)
  show "falsePosCount (submit_scores S) = 0" using h by (simp add: falsePos_subset)
qed

theorem audienceRet_round_half_up_witness:
  "distinct first8 \<and> set first8 \<subseteq> set (map word WORDS) \<and> length first8 = 8
   \<and> total' (submit_scores first8) = 8 \<and> audienceRet (submit_scores first8) = Num 53
   \<and> falsePosCount (submit_scores first8) = 0"
proof -
  have h: "distinct first8 \<and> set first8 \<subseteq> set (map word WORDS) \<and> length first8 = 8"
    by (simp add: first8_def WORDS_def)
  show ?thesis using audienceRet_round_half_up [of first8] h by blast
qed

lemma rate_bounds:
  assumes "0 < b" and "a \<le> b"
  shows "\<exists>n. Math_round (js_times (js_div a b) 100) = Num (of_int n) \<and> 0 \<le> n \<and> n \<le> 100"
proof -
  let ?x = "real a / real b * 100"
  have "real a / real b \<le> 1" using assms by simp
  then have "?x \<le> 1 * 100" by (intro mult_right_mono) simp_all
  then have hi: "?x \<le> 100" by simp
  have lo: "0 \<le> ?x" by simp
  have "0 \<le> \<lfloor>?x + 1 / 2\<rfloor>" using lo by simp
  moreover have "\<lfloor>?x + 1 / 2\<rfloor> \<le> 100" using hi by (simp add: floor_le_iff)
  ultimately show ?thesis using round_rate [OF assms(1), of a] by blast
qed

lemma enRate_submit_scores:
  "enRate (submit_scores sel) =
     Math_round (js_times (js_div
       (length (filter recalled (filter (\<lambda>w. lang w = ''EN'') (matched (submit_scores sel)))))
       (length (filter (\<lambda>w. lang w = ''EN'') (matched (submit_scores sel))))) 100)"
  by (simp add: submit_scores_def Let_def)

lemma svRate_submit_scores:
  "svRate (submit_scores sel) =
     Math_round (js_times (js_div
       (length (filter recalled (filter (\<lambda>w. lang w = ''SV'') (matched (submit_scores sel)))))
       (length (filter (\<lambda>w. lang w = ''SV'') (matched (submit_scores sel))))) 100)"
  by (simp add: submit_scores_def Let_def)

lemma length_en: "length (filter (\<lambda>w. lang w = ''EN'') (matched (submit_scores sel))) = 8"
  by (simp add: submit_scores_def Let_def filter_map comp_def WORDS_def)

lemma length_sv: "length (filter (\<lambda>w. lang w = ''SV'') (matched (submit_scores sel))) = 7"
  by (simp add: submit_scores_def Let_def filter_map comp_def WORDS_def)

text \<open>
  Claim C9. For every selection, \<open>enRate\<close> and \<open>svRate\<close> are integers between 0 and
  100. Neither is \<open>NaN\<close> or \<open>Infinity\<close>: the divisors are the sizes of the two language
  partitions of the matched list, 8 and 7, whatever was selected.
\<close>

theorem rates_in_range:
  "length (filter (\<lambda>w. lang w = ''EN'') (matched (submit_scores S))) = 8
   \<and> length (filter (\<lambda>w. lang w = ''SV'') (matched (submit_scores S))) = 7
   \<and> (\<exists>n. enRate (submit_scores S) = Num (of_int n) \<and> 0 \<le> n \<and> n \<le> 100)
   \<and> (\<exists>n. svRate (submit_scores S) = Num (of_int n) \<and> 0 \<le> n \<and> n \<le> 100)"
proof (intro conjI)
  show "length (filter (\<lambda>w. lang w = ''EN'') (matched (submit_scores S))) = 8"
    by (rule length_en)
  show "length (filter (\<lambda>w. lang w = ''SV'') (matched (submit_scores S))) = 7"
    by (rule length_sv)
  let ?en = "filter (\<lambda>w. lang w = ''EN'') (matched (submit_scores S))"
  let ?sv = "filter (\<lambda>w. lang w = ''SV'') (matched (submit_scores S))"
  have en_pos: "0 < length ?en" by (simp only: length_en)
  have en_le: "length (filter recalled ?en) \<le> length ?en" by (rule length_filter_le)
  show "\<exists>n. enRate (submit_scores S) = Num (of_int n) \<and> 0 \<le> n \<and> n \<le> 100"
    using rate_bounds [OF en_pos en_le] by (simp only: enRate_submit_scores)
  have sv_pos: "0 < length ?sv" by (simp only: length_sv)
  have sv_le: "length (filter recalled ?sv) \<le> length ?sv" by (rule length_filter_le)
  show "\<exists>n. svRate (submit_scores S) = Num (of_int n) \<and> 0 \<le> n \<and> n \<le> 100"
    using rate_bounds [OF sv_pos sv_le] by (simp only: svRate_submit_scores)
qed

section \<open>The grid\<close>





text \<open>
  The example sort is stable: where the comparator never answers with a positive
  number, as for a random number of exactly one half, the array keeps its order.
\<close>

lemma insertion_loop_keeps_order:
  assumes "\<And>a b i. fst (cmp a b i) \<le> 0"
  shows "fst (insertion_loop cmp xs acc i) = rev acc @ xs"
proof (induction xs arbitrary: acc i)
  case Nil
  show ?case by simp
next
  case (Cons x xs)
  have "fst (insert_sorted cmp x acc i) = x # acc"
  proof (cases acc)
    case Nil
    then show ?thesis by simp
  next
    case (Cons y rs)
    obtain c j where c: "cmp y x i = (c, j)" by (cases "cmp y x i")
    have "c \<le> 0" using assms [of y x i] by (simp add: c)
    then show ?thesis by (simp add: Cons c)
  qed
  then obtain j where "insert_sorted cmp x acc i = (x # acc, j)"
    by (cases "insert_sorted cmp x acc i") simp
  then show ?case using Cons.IH [of "x # acc" j] by simp
qed

lemma shuffle_insertion_sort_one_half:
  "shuffle insertion_sort (\<lambda>i. 1 / 2) xs = xs"
  using insertion_loop_keeps_order [of "random_comparefn (\<lambda>i. 1 / 2)" xs "[]" 0]
  by (simp add: shuffle_def insertion_sort_def random_comparefn_def)



section \<open>Selecting words\<close>

lemma toggleWord_selected:
  "\<not> submitted s \<Longrightarrow> w \<in> set (selected s) \<Longrightarrow>
     selected (toggleWord w s) = removeAll w (selected s)"
  by (simp add: toggleWord_def)

text \<open>
  Claim C10. Before submission, toggling a word that is in the selection removes it:
  it is no longer a member, every other member stays, and the size drops by one. The
  membership test comes first in \<open>toggleWord\<close>, so this holds at any size, also with
  all 15 places taken.
\<close>

theorem toggle_selected_word_removes:
  assumes "\<not> submitted s" and "w \<in> set (selected s)"
  shows "w \<notin> set (selected (toggleWord w s))
     \<and> set (selected (toggleWord w s)) = set (selected s) - {w}
     \<and> (distinct (selected s) \<longrightarrow>
          length (selected (toggleWord w s)) = length (selected s) - 1)"
proof -
  have "distinct (selected s) \<Longrightarrow> length (removeAll w (selected s)) = length (selected s) - 1"
    using assms(2) by (simp add: distinct_remove1_removeAll [symmetric] length_remove1)
  then show ?thesis using assms by (auto simp: toggleWord_selected)
qed

theorem toggle_selected_word_removes_witness:
  "\<not> submitted full15 \<and> ''Apple'' \<in> set (selected full15) \<and> length (selected full15) = 15
   \<and> ''Apple'' \<notin> set (selected (toggleWord ''Apple'' full15))
   \<and> length (selected (toggleWord ''Apple'' full15)) = 14"
proof -
  have h: "\<not> submitted full15" "''Apple'' \<in> set (selected full15)"
    "length (selected full15) = 15" "distinct (selected full15)"
    by (simp_all add: full15_def WORDS_def)
  show ?thesis using toggle_selected_word_removes [OF h(1) h(2)] h by simp
qed


section \<open>Invariants of the reachable states\<close>

lemma run_Nil: "run [] s = s"
  by (simp add: run_def)

lemma run_snoc: "run (es @ [e]) s = fire e (run es s)"
  by (simp add: run_def)

lemma selected_setPhase: "selected (setPhase p s) = selected s"
  by (simp add: setPhase_def)

lemma submitted_setPhase: "submitted (setPhase p s) = submitted s"
  by (simp add: setPhase_def)

lemma scores_setPhase: "scores (setPhase p s) = scores s"
  by (simp add: setPhase_def)

lemma phase_setPhase: "phase (setPhase p s) = p"
  by (simp add: setPhase_def)

lemma selected_tick: "selected (tick s) = selected s"
  by (simp add: tick_def selected_setPhase)

lemma submitted_tick: "submitted (tick s) = submitted s"
  by (simp add: tick_def submitted_setPhase)

lemma scores_tick: "scores (tick s) = scores s"
  by (simp add: tick_def scores_setPhase)

lemma tick_outside_countdown:
  "phase s \<noteq> Study \<Longrightarrow> phase s \<noteq> Distract \<Longrightarrow> tick s = s"
  by (simp add: tick_def)

lemma phase_tick_cases:
  "phase (tick s) = phase s
   \<or> (timer s = 1 \<and> phase s = Study \<and> phase (tick s) = Distract)
   \<or> (timer s = 1 \<and> phase s = Distract \<and> phase (tick s) = Recall)"
  by (simp add: tick_def phase_setPhase)

lemma sel_ok_toggleWord: "sel_ok (selected s) \<Longrightarrow> sel_ok (selected (toggleWord w s))"
proof -
  assume a: "sel_ok (selected s)"
  have l: "length (removeAll w (selected s)) \<le> length WORDS"
    using a order_trans [OF length_removeAll_less_eq, of "selected s" "length WORDS" w]
    by (simp add: sel_ok_def)
  have d: "distinct (removeAll w (selected s))"
    using a by (simp add: sel_ok_def distinct_removeAll)
  show ?thesis
  proof (cases "submitted s")
    case True
    with a show ?thesis by (simp add: toggleWord_def)
  next
    case False
    show ?thesis
    proof (cases "w \<in> set (selected s)")
      case True
      with False a l d show ?thesis by (simp add: toggleWord_def sel_ok_def)
    next
      case False
      with \<open>\<not> submitted s\<close> a show ?thesis by (auto simp: toggleWord_def sel_ok_def Let_def)
    qed
  qed
qed

lemma sel_ok_fire: "sel_ok (selected s) \<Longrightarrow> sel_ok (selected (fire e s))"
proof (cases e)
  case (ClickTile w)
  assume "sel_ok (selected s)"
  then show ?thesis using ClickTile by (simp add: sel_ok_toggleWord)
next
  case PressHome
  assume "sel_ok (selected s)"
  then show ?thesis using PressHome by (simp add: Btn_def goHome_def sel_ok_def)
next
  case PressSubmit
  assume "sel_ok (selected s)"
  then show ?thesis using PressSubmit
    by (cases "selected s = []") (simp_all add: Btn_def submit_def selected_setPhase)
qed (simp_all add: Btn_def selected_setPhase selected_tick)

lemma sel_ok_run: "sel_ok (selected (run es init))"
proof (induction es rule: rev_induct)
  case Nil
  show ?case by (simp add: run_Nil init_def sel_ok_def)
next
  case (snoc e es)
  then show ?case by (simp only: run_snoc sel_ok_fire)
qed

lemma results_ok_toggleWord: "results_ok s \<Longrightarrow> results_ok (toggleWord w s)"
  by (simp add: results_ok_def toggleWord_def)

lemma results_ok_tick: "results_ok s \<Longrightarrow> results_ok (tick s)"
  using phase_tick_cases [of s]
  by (auto simp: results_ok_def submitted_tick scores_tick)

lemma results_ok_fire: "results_ok s \<Longrightarrow> results_ok (fire e s)"
proof (cases e)
  case Begin
  assume "results_ok s"
  then show ?thesis using Begin
    by (auto simp: results_ok_def Btn_def phase_setPhase submitted_setPhase scores_setPhase)
next
  case Tick
  assume "results_ok s"
  then show ?thesis using Tick by (simp add: results_ok_tick)
next
  case (ClickTile w)
  assume "results_ok s"
  then show ?thesis using ClickTile by (simp add: results_ok_toggleWord)
next
  case PressSubmit
  assume "results_ok s"
  then show ?thesis using PressSubmit
    by (auto simp: results_ok_def Btn_def submit_def phase_setPhase submitted_setPhase
        scores_setPhase)
next
  case PressHome
  assume "results_ok s"
  then show ?thesis using PressHome
    by (simp add: results_ok_def Btn_def goHome_def phase_setPhase)
qed

lemma results_ok_run: "results_ok (run es init)"
proof (induction es rule: rev_induct)
  case Nil
  show ?case by (simp add: run_Nil init_def results_ok_def)
next
  case (snoc e es)
  then show ?case by (simp only: run_snoc results_ok_fire)
qed

lemma toggleWord_at_cap:
  "length WORDS \<le> length (selected s) \<Longrightarrow> w \<notin> set (selected s) \<Longrightarrow> toggleWord w s = s"
  by (simp add: toggleWord_def)

text \<open>
  Claim C5. After every sequence of events from the initial state the selection has
  no repetition and at most 15 elements; and with 15 words selected, toggling a word
  that is not selected returns the state unchanged, without any error value.
\<close>

theorem selection_capped:
  "distinct (selected (run es init)) \<and> length (selected (run es init)) \<le> 15
   \<and> (length (selected s) = 15 \<and> w \<notin> set (selected s) \<longrightarrow> toggleWord w s = s)"
  using sel_ok_run [of es] toggleWord_at_cap [of s w]
  by (simp add: sel_ok_def length_WORDS)

theorem selection_capped_witness:
  "run select_all init = full15 \<and> length (selected full15) = 15
   \<and> ''Forest'' \<notin> set (selected full15)
   \<and> fire (ClickTile ''Forest'') full15 = full15
   \<and> length (selected (run (select_all @ [ClickTile ''Forest'']) init)) = 15"
proof -
  have r: "run select_all init = full15" by code_simp
  have h: "length (selected full15) = 15 \<and> ''Forest'' \<notin> set (selected full15)"
    by (simp add: full15_def WORDS_def)
  have p: "phase full15 = Recall" by (simp add: full15_def)
  have "toggleWord ''Forest'' full15 = full15"
    using selection_capped [of "[]" full15 "''Forest''"] h by blast
  then show ?thesis using r h p by (simp add: run_snoc)
qed

text \<open>
  The handler \<open>toggleWord\<close> tests \<open>submitted\<close> and not the phase; that it is never
  run outside the recall phase is the work of the pages, which offer no tile that
  calls it.
\<close>

lemma toggleWord_unguarded_by_phase:
  "phase (fire Begin init) = Study
   \<and> selected (toggleWord ''Apple'' (fire Begin init)) \<noteq> selected (fire Begin init)"
  by (simp add: init_def Btn_def setPhase_def toggleWord_def WORDS_def)

text \<open>
  Claim C3. In every phase other than \<open>recall\<close> a click on a word tile leaves the
  whole state, and so the selection, as it is, for every word and every selection:
  \<open>toggleWord\<close> is wired to the tiles of the recall page alone (the tiles of the
  results page carry the empty handler, the other pages show no tile to select). In
  every reachable state of the results phase the handler itself is inert as well,
  since \<open>submitted\<close> is set there.
\<close>

theorem tile_click_inert_outside_recall:
  "(phase s \<noteq> Recall \<longrightarrow> fire (ClickTile w) s = s)
   \<and> (phase (run es init) = Results \<longrightarrow> toggleWord w (run es init) = run es init)"
  using results_ok_run [of es] by (simp add: results_ok_def toggleWord_def)

theorem tile_click_inert_outside_recall_witness:
  "phase init = Intro \<and> fire (ClickTile ''Apple'') init = init
   \<and> phase (run [Begin] init) = Study
   \<and> fire (ClickTile ''Apple'') (run [Begin] init) = run [Begin] init
   \<and> phase (run to_distract init) = Distract
   \<and> fire (ClickTile ''Apple'') (run to_distract init) = run to_distract init
   \<and> phase (run to_results init) = Results
   \<and> selected (run to_results init) = [''Apple'']
   \<and> fire (ClickTile ''Hund'') (run to_results init) = run to_results init
   \<and> toggleWord ''Hund'' (run to_results init) = run to_results init"
proof -
  have p: "phase init = Intro" "phase (run [Begin] init) = Study"
    "phase (run to_distract init) = Distract" "phase (run to_results init) = Results"
    by code_simp+
  have s: "selected (run to_results init) = [''Apple'']" by code_simp
  show ?thesis
    using tile_click_inert_outside_recall [of init "''Apple''" "[]"]
      tile_click_inert_outside_recall [of "run [Begin] init" "''Apple''" "[]"]
      tile_click_inert_outside_recall [of "run to_distract init" "''Apple''" "[]"]
      tile_click_inert_outside_recall [of "run to_results init" "''Hund''" to_results] p s
    by simp
qed

section \<open>Submitting\<close>

text \<open>
  The handler \<open>submit\<close> has no check of its own; it is the disabled button that keeps
  an empty selection from being scored.
\<close>

lemma submit_enters_results: "phase (submit s) = Results \<and> scores (submit s) \<noteq> None"
  by (simp add: submit_def phase_setPhase scores_setPhase)

text \<open>
  Claim C4. On the recall page with nothing selected the submit button is disabled:
  pressing it leaves the whole state as it is. In every reachable such state the
  phase stays \<open>recall\<close> and there is no score object, before and after.
\<close>

theorem empty_submit_rejected:
  "(phase s = Recall \<and> selected s = [] \<longrightarrow> fire PressSubmit s = s)
   \<and> (phase (run es init) = Recall \<and> selected (run es init) = [] \<longrightarrow>
        phase (fire PressSubmit (run es init)) = Recall
        \<and> scores (fire PressSubmit (run es init)) = None
        \<and> fire PressSubmit (run es init) = run es init)"
  using results_ok_run [of es] by (auto simp: results_ok_def Btn_def)

theorem empty_submit_rejected_witness:
  "phase (run to_recall init) = Recall \<and> selected (run to_recall init) = []
   \<and> fire PressSubmit (run to_recall init) = run to_recall init
   \<and> scores (fire PressSubmit (run to_recall init)) = None"
proof -
  have h: "phase (run to_recall init) = Recall \<and> selected (run to_recall init) = []"
    by code_simp
  show ?thesis using empty_submit_rejected [of _ to_recall] h by blast
qed

section \<open>The countdown\<close>

lemma countdown_steps:
  assumes "phase s = Study \<or> phase s = Distract" and "timer s = int n"
  shows "k < n \<Longrightarrow> (tick ^^ k) s = s\<lparr>timer := int n - int k\<rparr>"
proof (induction k)
  case 0
  show ?case using assms(2) by simp
next
  case (Suc k)
  then have "(tick ^^ k) s = s\<lparr>timer := int n - int k\<rparr>" by simp
  then have "(tick ^^ Suc k) s = tick (s\<lparr>timer := int n - int k\<rparr>)" by simp
  also have "\<dots> = s\<lparr>timer := int n - int (Suc k)\<rparr>"
    using assms(1) Suc.prems by (auto simp: tick_def)
  finally show ?case .
qed

lemma countdown_expiry:
  assumes "phase s = Study \<or> phase s = Distract" and "timer s = int n" and "0 < n"
  shows "(tick ^^ n) s =
     setPhase (if phase s = Study then Distract else Recall) (s\<lparr>timer := 1\<rparr>)"
proof -
  obtain m where n: "n = Suc m" using assms(3) by (cases n) auto
  have "(tick ^^ m) s = s\<lparr>timer := int n - int m\<rparr>"
    using countdown_steps [OF assms(1) assms(2), of m] n by simp
  then have "(tick ^^ n) s = tick (s\<lparr>timer := 1\<rparr>)" using n by simp
  then show ?thesis using assms(1) by (auto simp: tick_def)
qed

text \<open>
  Claim C7. From the start of the study phase (timer loaded with \<open>STUDY_TIME\<close>, as
  "Begin Experiment" leaves it) the phase is \<open>study\<close> for the first 39 ticks and
  \<open>distract\<close> after the 40th, with the timer reloaded to \<open>DISTRACT_TIME\<close>; it stays
  \<open>distract\<close> for 299 further ticks and is \<open>recall\<close> after the 300th. A tick outside
  \<open>study\<close> and \<open>distract\<close> changes nothing, and a tick changes the phase only at
  these two expiries.
\<close>

theorem countdown_drives_phases:
  assumes "phase s = Study" and "timer s = STUDY_TIME"
  shows "(\<forall>k < nat STUDY_TIME. phase ((tick ^^ k) s) = Study)
    \<and> phase ((tick ^^ nat STUDY_TIME) s) = Distract
    \<and> timer ((tick ^^ nat STUDY_TIME) s) = DISTRACT_TIME
    \<and> (\<forall>k < nat DISTRACT_TIME. phase ((tick ^^ (nat STUDY_TIME + k)) s) = Distract)
    \<and> phase ((tick ^^ (nat STUDY_TIME + nat DISTRACT_TIME)) s) = Recall
    \<and> (\<forall>s'. phase s' \<noteq> Study \<and> phase s' \<noteq> Distract \<longrightarrow> tick s' = s')
    \<and> (\<forall>s'. phase (tick s') \<noteq> phase s' \<longrightarrow>
          timer s' = 1 \<and> (phase s' = Study \<and> phase (tick s') = Distract
                          \<or> phase s' = Distract \<and> phase (tick s') = Recall))
    \<and> (\<forall>s0. phase s0 = Intro \<longrightarrow>
          phase (fire Begin s0) = Study \<and> timer (fire Begin s0) = STUDY_TIME)"
proof -
  let ?d = "(tick ^^ nat STUDY_TIME) s"
  have t: "timer s = int (nat STUDY_TIME)" using assms(2) by (simp add: STUDY_TIME_def)
  have sp: "phase s = Study \<or> phase s = Distract" using assms(1) by simp
  have a: "\<forall>k < nat STUDY_TIME. phase ((tick ^^ k) s) = Study"
    using countdown_steps [OF sp t] assms(1) by simp
  have d: "?d = s\<lparr>phase := Distract, timer := DISTRACT_TIME\<rparr>"
    using countdown_expiry [OF sp t] assms(1) by (simp add: STUDY_TIME_def setPhase_def)
  have dp: "phase ?d = Study \<or> phase ?d = Distract" by (simp add: d)
  have dt: "timer ?d = int (nat DISTRACT_TIME)" by (simp add: d DISTRACT_TIME_def)
  have split: "\<And>k. (tick ^^ (nat STUDY_TIME + k)) s = (tick ^^ k) ?d"
    by (simp add: funpow_add add.commute [of "nat STUDY_TIME"])
  have b: "\<forall>k < nat DISTRACT_TIME. phase ((tick ^^ (nat STUDY_TIME + k)) s) = Distract"
    using countdown_steps [OF dp dt] by (simp add: split d)
  have r: "phase ((tick ^^ (nat STUDY_TIME + nat DISTRACT_TIME)) s) = Recall"
    using countdown_expiry [OF dp dt] by (simp add: split d DISTRACT_TIME_def phase_setPhase)
  have e: "\<forall>s'. phase s' \<noteq> Study \<and> phase s' \<noteq> Distract \<longrightarrow> tick s' = s'"
    by (simp add: tick_outside_countdown)
  have f: "\<forall>s'. phase (tick s') \<noteq> phase s' \<longrightarrow>
          timer s' = 1 \<and> (phase s' = Study \<and> phase (tick s') = Distract
                          \<or> phase s' = Distract \<and> phase (tick s') = Recall)"
    using phase_tick_cases by blast
  have g: "\<forall>s0. phase s0 = Intro \<longrightarrow>
          phase (fire Begin s0) = Study \<and> timer (fire Begin s0) = STUDY_TIME"
    by (simp add: Btn_def setPhase_def)
  show ?thesis using a d b r e f g by simp
qed

theorem countdown_drives_phases_witness:
  "phase (fire Begin init) = Study \<and> timer (fire Begin init) = STUDY_TIME
   \<and> phase ((tick ^^ 39) (fire Begin init)) = Study
   \<and> phase ((tick ^^ 40) (fire Begin init)) = Distract
   \<and> timer ((tick ^^ 40) (fire Begin init)) = 300
   \<and> phase ((tick ^^ (40 + 299)) (fire Begin init)) = Distract
   \<and> phase ((tick ^^ (40 + 300)) (fire Begin init)) = Recall
   \<and> tick init = init"
proof -
  have h: "phase (fire Begin init) = Study" "timer (fire Begin init) = STUDY_TIME"
    by (simp_all add: init_def Btn_def setPhase_def)
  have n: "nat STUDY_TIME = 40" "nat DISTRACT_TIME = 300"
    by (simp_all add: STUDY_TIME_def DISTRACT_TIME_def)
  have i: "phase init \<noteq> Study \<and> phase init \<noteq> Distract" by (simp add: init_def)
  note c = countdown_drives_phases [OF h]
  have "(39::nat) < nat STUDY_TIME" "(299::nat) < nat DISTRACT_TIME" by (simp_all add: n)
  with c i h show ?thesis
    by (simp only: n) (simp add: DISTRACT_TIME_def)
qed

end
